theory Spec2Isabelle
  imports Main
begin

section \<open>Python values used by the robot code\<close>

text \<open>
  Python's unbounded integers are \<open>int\<close>; strings are \<open>string\<close>. The f-strings of the
  source format an integer with \<open>str\<close>: decimal digits, with a leading minus sign for a
  negative number.
\<close>

definition digit_char :: "nat \<Rightarrow> char" where
  "digit_char d = ''0123456789'' ! d"

fun str_nat :: "nat \<Rightarrow> string" where
  "str_nat n = (if n < 10 then [digit_char n] else str_nat (n div 10) @ [digit_char (n mod 10)])"

declare str_nat.simps [simp del]

definition str_int :: "int \<Rightarrow> string" where
  "str_int i = (if i < 0 then CHR ''-'' # str_nat (nat (- i)) else str_nat (nat i))"

text \<open>Exceptions that the modelled code can raise.\<close>

datatype exn = KeyError string

text \<open>
  A dictionary literal is an association list in the order it is written; \<open>d[k]\<close> raises
  \<open>KeyError\<close> on a missing key.
\<close>

definition dict_get :: "(string \<times> 'v) list \<Rightarrow> string \<Rightarrow> exn + 'v" where
  "dict_get d k = (case map_of d k of None \<Rightarrow> Inl (KeyError k) | Some v \<Rightarrow> Inr v)"

definition dict_keys :: "(string \<times> 'v) list \<Rightarrow> string list" where
  "dict_keys d = map fst d"

text \<open>
  The \<open>random\<close> module is an input of the model: every call takes the raw draw \<open>r\<close> it
  consumes. \<open>random.choice\<close> picks an element of a non-empty sequence,
  \<open>random.randint a b\<close> an integer of \<open>[a, b]\<close>. \<open>random.uniform a b\<close> is a float of
  \<open>[a, b]\<close> seconds; the model draws it in whole milliseconds.
\<close>

definition random_choice :: "'a list \<Rightarrow> nat \<Rightarrow> 'a" where
  "random_choice xs r = xs ! (r mod length xs)"

definition random_randint :: "int \<Rightarrow> int \<Rightarrow> nat \<Rightarrow> int" where
  "random_randint a b r = a + int (r mod nat (b - a + 1))"

definition random_uniform_ms :: "nat \<Rightarrow> nat \<Rightarrow> nat \<Rightarrow> nat" where
  "random_uniform_ms a b r = 1000 * a + r mod (1000 * (b - a) + 1)"

section \<open>Configuration tables\<close>

text \<open>\<open>config.py\<close>: the servo tables of the modular implementation.\<close>

definition SERVO_PINS :: "(string \<times> int) list" where
  "SERVO_PINS = [(''head'', 9), (''left_arm'', 10), (''right_arm'', 8)]"

definition SERVO_RANGES :: "(string \<times> int \<times> int) list" where
  "SERVO_RANGES = [(''head'', (40, 120)), (''left_arm'', (0, 80)), (''right_arm'', (90, 180))]"

definition SERVO_HOME_POSITIONS :: "(string \<times> int) list" where
  "SERVO_HOME_POSITIONS = [(''head'', 80), (''left_arm'', 40), (''right_arm'', 135)]"

definition IDLE_ANIMATION_INTERVAL_MIN :: nat where
  "IDLE_ANIMATION_INTERVAL_MIN = 8"

definition IDLE_ANIMATION_INTERVAL_MAX :: nat where
  "IDLE_ANIMATION_INTERVAL_MAX = 15"

text \<open>\<open>rufus.py\<close>: the safe ranges of the single-file implementation.\<close>

record limits =
  min_a :: int
  max_a :: int
  rest :: int

definition SERVO_LIMITS :: "(string \<times> limits) list" where
  "SERVO_LIMITS =
     [(''head'', \<lparr>min_a = 40, max_a = 120, rest = 90\<rparr>),
      (''left_arm'', \<lparr>min_a = 0, max_a = 80, rest = 80\<rparr>),
      (''right_arm'', \<lparr>min_a = 90, max_a = 180, rest = 90\<rparr>)]"

definition IDLE_ANIMATION_MIN :: nat where
  "IDLE_ANIMATION_MIN = 8"

definition IDLE_ANIMATION_MAX :: nat where
  "IDLE_ANIMATION_MAX = 15"

text \<open>
  The clamp expression of \<open>idle_animation_loop\<close> in \<open>rufus.py\<close>:
  \<open>max(limits["min"], min(limits["max"], new_pos))\<close>.
\<close>

definition clamp :: "limits \<Rightarrow> int \<Rightarrow> int" where
  "clamp l a = max (min_a l) (min (max_a l) a)"

section \<open>Time and the serial port\<close>

text \<open>
  Every thread of the program has a clock, in milliseconds. \<open>time.sleep(x)\<close> advances
  the clock of the calling thread by \<open>1000 x\<close>, a \<open>read_until\<close> by the time that the
  device takes to complete the line (the timeout of the port at most), and \<open>join\<close> by the
  time that it waits; every other statement takes no time.

  The serial port object of \<open>pyserial\<close>: whether it is open, the payload of every
  \<open>write\<close> that went through with the time of the call, the number of \<open>write\<close> calls
  made so far, the calls that raise \<open>serial.SerialException\<close> (a write on a closed port
  always does), and, for every \<open>write\<close> call by its number, the reply lines that a read
  loop after it gets (decoded and stripped), each with the time in milliseconds that the
  device takes to complete the line.
\<close>

datatype serial_error = SerialException

record serial_port =
  is_open :: bool
  written :: "(nat \<times> string) list"
  attempts :: nat
  faults :: "nat \<Rightarrow> bool"
  replies :: "nat \<Rightarrow> (string \<times> nat) list"

definition port_write :: "nat \<Rightarrow> string \<Rightarrow> serial_port \<Rightarrow> serial_error option \<times> serial_port" where
  "port_write t payload p =
     (let p' = p\<lparr>attempts := attempts p + 1\<rparr> in
      if \<not> is_open p \<or> faults p (attempts p) then (Some SerialException, p')
      else (None, p'\<lparr>written := written p @ [(t, payload)]\<rparr>))"


definition newline :: string where
  "newline = [CHR 0x0A]"


section \<open>\<open>src/arduino_controller.py\<close>: ArduinoController\<close>

text \<open>
  The controller object (its field \<open>connection\<close>, \<open>None\<close> in simulation mode) together
  with the clock of the thread that runs its methods. The calls to the logger are left
  out, and so is the detection of the port name, which only chooses the device to open.
\<close>

record controller =
  clock :: nat
  connection :: "serial_port option"

definition time_sleep :: "nat \<Rightarrow> controller \<Rightarrow> controller" where
  "time_sleep ms c = c\<lparr>clock := clock c + ms\<rparr>"

text \<open>
  \<open>_connect\<close>: the argument is what \<open>serial.Serial(...)\<close> does, \<open>None\<close> when it raises
  \<open>SerialException\<close>.
\<close>

definition ArduinoController_connect :: "serial_port option \<Rightarrow> controller \<Rightarrow> controller" where
  "ArduinoController_connect opened c =
     (case opened of
        Some p \<Rightarrow> time_sleep 2000 (c\<lparr>connection := Some (p\<lparr>is_open := True\<rparr>)\<rparr>)
      | None \<Rightarrow> c\<lparr>connection := None\<rparr>)"

text \<open>\<open>send_command\<close>: \<open>write\<close> and \<open>flush\<close> are one write attempt on the port.\<close>

definition ArduinoController_send_command :: "string \<Rightarrow> controller \<Rightarrow> bool \<times> controller" where
  "ArduinoController_send_command command c =
     (case connection c of
        None \<Rightarrow> (True, c)
      | Some p \<Rightarrow>
          (case port_write (clock c) (command @ newline) p of
             (None, p') \<Rightarrow> (True, c\<lparr>connection := Some p'\<rparr>)
           | (Some SerialException, p') \<Rightarrow> (False, c\<lparr>connection := Some p'\<rparr>)))"

definition ArduinoController_gesture_yes :: "controller \<Rightarrow> controller" where
  "ArduinoController_gesture_yes c = snd (ArduinoController_send_command ''yes'' c)"

definition ArduinoController_gesture_no :: "controller \<Rightarrow> controller" where
  "ArduinoController_gesture_no c = snd (ArduinoController_send_command ''no'' c)"

definition ArduinoController_gesture_neutral :: "controller \<Rightarrow> controller" where
  "ArduinoController_gesture_neutral c = snd (ArduinoController_send_command ''neutral'' c)"

definition move_servo :: "string \<Rightarrow> int \<Rightarrow> controller \<Rightarrow> bool \<times> controller" where
  "move_servo servo angle c =
     (if servo \<notin> set (dict_keys SERVO_PINS) then (False, c)
      else ArduinoController_send_command (servo @ ''_'' @ str_int angle) c)"

definition ArduinoController_natural_movement :: "nat \<Rightarrow> nat \<Rightarrow> controller \<Rightarrow> exn + controller" where
  "ArduinoController_natural_movement r1 r2 c =
     (let servo = random_choice (dict_keys SERVO_PINS) r1 in
      case dict_get SERVO_HOME_POSITIONS servo of
        Inl e \<Rightarrow> Inl e
      | Inr current_angle \<Rightarrow>
          (let new_angle = current_angle + random_randint (- 15) 15 r2;
               new_angle = max 0 (min 180 new_angle);
               c1 = snd (move_servo servo new_angle c);
               c2 = time_sleep 500 c1
           in Inr (snd (move_servo servo current_angle c2))))"


section \<open>\<open>src/gesture_controller.py\<close>: GestureController\<close>

text \<open>The gestures act on the controller held in \<open>self.arduino\<close>.\<close>

definition gesture_yes :: "controller \<Rightarrow> controller" where
  "gesture_yes c = ArduinoController_gesture_yes c"

definition gesture_no :: "controller \<Rightarrow> controller" where
  "gesture_no c = ArduinoController_gesture_no c"

definition gesture_neutral :: "controller \<Rightarrow> controller" where
  "gesture_neutral c = ArduinoController_gesture_neutral c"

definition gesture_head_tilt :: "controller \<Rightarrow> controller" where
  "gesture_head_tilt c =
     (let c1 = snd (move_servo ''head'' 100 c);
          c2 = time_sleep 1000 c1
      in snd (move_servo ''head'' 80 c2))"

definition gesture_thinking :: "controller \<Rightarrow> controller" where
  "gesture_thinking c =
     (let c1 = snd (move_servo ''head'' 70 c);
          c2 = time_sleep 500 c1;
          c3 = snd (move_servo ''head'' 90 c2);
          c4 = time_sleep 500 c3
      in snd (move_servo ''head'' 80 c4))"

definition gesture_wave :: "controller \<Rightarrow> controller" where
  "gesture_wave c =
     foldl (\<lambda>c angle. time_sleep 200 (snd (move_servo ''right_arm'' angle c))) c
       [135, 150, 135, 150, 135]"

definition gesture_excited :: "controller \<Rightarrow> controller" where
  "gesture_excited c =
     foldl (\<lambda>c _. let c1 = snd (move_servo ''left_arm'' 60 c);
                      c2 = snd (move_servo ''right_arm'' 150 c1);
                      c3 = time_sleep 200 c2;
                      c4 = snd (move_servo ''left_arm'' 40 c3);
                      c5 = snd (move_servo ''right_arm'' 135 c4)
                  in time_sleep 200 c5) c [0 ..< 3]"

definition natural_movement :: "nat \<Rightarrow> nat \<Rightarrow> controller \<Rightarrow> exn + controller" where
  "natural_movement r1 r2 c = ArduinoController_natural_movement r1 r2 c"

text \<open>
  \<open>perform_gesture\<close>: the dictionary of bound methods and the lookup. \<open>r1\<close> and \<open>r2\<close> are
  the draws that \<open>natural_movement\<close> consumes.
\<close>

definition gestures :: "nat \<Rightarrow> nat \<Rightarrow> (string \<times> (controller \<Rightarrow> exn + controller)) list" where
  "gestures r1 r2 =
     [(''yes'', \<lambda>c. Inr (gesture_yes c)),
      (''no'', \<lambda>c. Inr (gesture_no c)),
      (''neutral'', \<lambda>c. Inr (gesture_neutral c)),
      (''head_tilt'', \<lambda>c. Inr (gesture_head_tilt c)),
      (''thinking'', \<lambda>c. Inr (gesture_thinking c)),
      (''wave'', \<lambda>c. Inr (gesture_wave c)),
      (''excited'', \<lambda>c. Inr (gesture_excited c)),
      (''natural_movement'', natural_movement r1 r2)]"

definition perform_gesture :: "string \<Rightarrow> nat \<Rightarrow> nat \<Rightarrow> controller \<Rightarrow> exn + bool \<times> controller" where
  "perform_gesture gesture_name r1 r2 c =
     (case map_of (gestures r1 r2) gesture_name of
        Some g \<Rightarrow> (case g c of Inl e \<Rightarrow> Inl e | Inr c' \<Rightarrow> Inr (True, c'))
      | None \<Rightarrow> Inr (False, c))"

text \<open>
  The flag \<open>idle_animation_running\<close> is written by the main thread and read by the idle
  thread. The idle thread's model takes the flag as a signal: its value at every time of
  the clock, as the main thread leaves it; a read at clock \<open>t\<close> sees the signal at \<open>t\<close>.
  Each cycle of the loop consumes one triple of draws (interval, servo, offset); a loop
  that needs a draw when none is left stops with \<open>OutOfDraws\<close>, the model's end of
  observation.
\<close>

datatype thread_end = Returned | Raised exn | OutOfDraws

fun GestureController_idle_animation_loop ::
  "(nat \<Rightarrow> bool) \<Rightarrow> (nat \<times> nat \<times> nat) list \<Rightarrow> controller \<Rightarrow> thread_end \<times> controller" where
  "GestureController_idle_animation_loop run [] c =
     (if run (clock c) then (OutOfDraws, c) else (Returned, c))"
| "GestureController_idle_animation_loop run ((ri, r1, r2) # ds) c =
     (if \<not> run (clock c) then (Returned, c)
      else
        (let interval = random_uniform_ms IDLE_ANIMATION_INTERVAL_MIN IDLE_ANIMATION_INTERVAL_MAX ri;
             c1 = time_sleep interval c
         in if \<not> run (clock c1) then (Returned, c1)
            else (case natural_movement r1 r2 c1 of
                    Inl e \<Rightarrow> (Raised e, c1)
                  | Inr c2 \<Rightarrow> GestureController_idle_animation_loop run ds c2)))"











section \<open>\<open>rufus.py\<close>: the single-file program\<close>

text \<open>
  The state of a thread of \<open>rufus.py\<close>: its clock, the serial object it uses (\<open>None\<close> in
  simulation mode) and what \<open>send_command\<close> and \<open>open_arduino\<close> print.
\<close>

datatype msg = Simulation string | Arduino string | Reply string | SerialError
  | Connected | ConnectFailed

record rufus =
  now :: nat
  uno :: "serial_port option"
  console :: "msg list"

definition sleep :: "nat \<Rightarrow> rufus \<Rightarrow> rufus" where
  "sleep ms s = s\<lparr>now := now s + ms\<rparr>"

text \<open>
  The port is opened with \<open>timeout=1\<close>: a \<open>read_until\<close> returns when the line is
  complete, and after 1000 ms at the latest. The time that the read loop of
  \<open>send_command\<close> takes after the write call number \<open>k\<close>:
\<close>

definition reply_time :: "serial_port \<Rightarrow> nat \<Rightarrow> nat" where
  "reply_time p k = sum_list (map (\<lambda>r. min (snd r) 1000) (replies p k))"

text \<open>
  \<open>send_command\<close> has no \<open>return\<close> with a value: the caller gets \<open>None\<close>, the unit value,
  on every path. After the write and the sleep of 0.1 s the replies are read, which takes
  their time, and the non-empty ones are printed. A read is taken not to raise.
\<close>

definition send_command :: "string \<Rightarrow> rufus \<Rightarrow> unit \<times> rufus" where
  "send_command cmd s =
     (case uno s of
        None \<Rightarrow> ((), s\<lparr>console := console s @ [Simulation cmd]\<rparr>)
      | Some p \<Rightarrow>
          (case port_write (now s) (cmd @ newline) p of
             (None, p') \<Rightarrow>
               ((), sleep (100 + reply_time p (attempts p))
                      (s\<lparr>uno := Some p',
                         console := console s @ [Arduino cmd]
                           @ map Reply (filter (\<lambda>r. r \<noteq> [])
                               (map fst (replies p (attempts p))))\<rparr>))
           | (Some e, p') \<Rightarrow>
               ((), s\<lparr>uno := Some p', console := console s @ [SerialError]\<rparr>)))"

text \<open>
  \<open>open_arduino\<close>: the argument is what \<open>serial.Serial(...)\<close> does, \<open>None\<close> when it raises
  \<open>SerialException\<close>.
\<close>

definition open_arduino :: "serial_port option \<Rightarrow> rufus \<Rightarrow> rufus" where
  "open_arduino opened s =
     (case opened of
        Some p \<Rightarrow>
          (let s1 = sleep 2000 (s\<lparr>uno := Some (p\<lparr>is_open := True\<rparr>)\<rparr>);
               s2 = snd (send_command ''rest'' s1)
           in s2\<lparr>console := console s2 @ [Connected]\<rparr>)
      | None \<Rightarrow> s\<lparr>uno := None, console := console s @ [ConnectFailed]\<rparr>)"

text \<open>
  The module globals \<open>idle_animation_running\<close> and \<open>conversation_locked\<close>, as the idle
  thread reads them: signals over the clock.
\<close>

record shared =
  running_at :: "nat \<Rightarrow> bool"
  locked_at :: "nat \<Rightarrow> bool"

text \<open>
  The sleep of \<open>idle_animation_loop\<close> in chunks of 0.1 s. The first component is
  \<open>False\<close> when the stop signal was seen and the function returned.
\<close>

fun sleep_chunks :: "(nat \<Rightarrow> bool) \<Rightarrow> nat \<Rightarrow> rufus \<Rightarrow> bool \<times> rufus" where
  "sleep_chunks run 0 s = (True, s)"
| "sleep_chunks run (Suc n) s =
     (let s' = sleep 100 s in
      if \<not> run (now s') then (False, s') else sleep_chunks run n s')"

text \<open>
  The random subtle movement of the loop body (the statements under \<open>if arduino:\<close>);
  \<open>clamp\<close> is its expression \<open>max(limits["min"], min(limits["max"], new_pos))\<close>.
\<close>

definition idle_movement :: "nat \<Rightarrow> nat \<Rightarrow> rufus \<Rightarrow> exn + rufus" where
  "idle_movement r1 r2 s =
     (let servo = random_choice [''head'', ''left_arm'', ''right_arm''] r1 in
      case dict_get SERVO_LIMITS servo of
        Inl e \<Rightarrow> Inl e
      | Inr limits \<Rightarrow>
          (let rest_pos = rest limits;
               min_offset = - 15;
               max_offset = 15;
               new_pos = rest_pos + random_randint min_offset max_offset r2;
               new_pos = clamp limits new_pos;
               s1 = snd (send_command (servo @ ''_'' @ str_int new_pos) s);
               s2 = sleep 500 s1
           in Inr (snd (send_command (servo @ ''_'' @ str_int (rest limits)) s2))))"

text \<open>
  \<open>idle_animation_loop\<close>. \<open>int(interval * 10)\<close> chunks are slept; the informational
  prints of the loop are left out.
\<close>

fun idle_animation_loop ::
  "shared \<Rightarrow> (nat \<times> nat \<times> nat) list \<Rightarrow> rufus \<Rightarrow> thread_end \<times> rufus" where
  "idle_animation_loop E [] s =
     (if running_at E (now s) then (OutOfDraws, s) else (Returned, s))"
| "idle_animation_loop E ((ri, r1, r2) # ds) s =
     (if \<not> running_at E (now s) then (Returned, s)
      else
        (let interval = random_uniform_ms IDLE_ANIMATION_MIN IDLE_ANIMATION_MAX ri in
         case sleep_chunks (running_at E) (interval div 100) s of
           (False, s1) \<Rightarrow> (Returned, s1)
         | (True, s1) \<Rightarrow>
             if locked_at E (now s1) then idle_animation_loop E ds s1
             else
               (case uno s1 of
                  None \<Rightarrow> idle_animation_loop E ds s1
                | Some _ \<Rightarrow>
                    (case idle_movement r1 r2 s1 of
                       Inl e \<Rightarrow> (Raised e, s1)
                     | Inr s2 \<Rightarrow> idle_animation_loop E ds s2))))"










text \<open>
  The time that a thread of \<open>rufus.py\<close> spends reading the replies to one command is at
  most \<open>R\<close>.
\<close>

definition reply_bounded :: "nat \<Rightarrow> rufus \<Rightarrow> bool" where
  "reply_bounded R s = (case uno s of None \<Rightarrow> True | Some p \<Rightarrow> \<forall>k. reply_time p k \<le> R)"

text \<open>The writes that a thread of \<open>rufus.py\<close> has made, with their times.\<close>

definition writes_of :: "rufus \<Rightarrow> (nat \<times> string) list" where
  "writes_of s = (case uno s of None \<Rightarrow> [] | Some p \<Rightarrow> written p)"

definition writes_of_controller :: "controller \<Rightarrow> (nat \<times> string) list" where
  "writes_of_controller c = (case connection c of None \<Rightarrow> [] | Some p \<Rightarrow> written p)"


section \<open>Example ports\<close>

text \<open>A port on which every write goes through, and one on which every write raises.\<close>

definition healthy_port :: serial_port where
  "healthy_port =
     \<lparr>is_open = True, written = [], attempts = 0, faults = (\<lambda>k. False),
      replies = (\<lambda>k. [])\<rparr>"

definition broken_port :: serial_port where
  "broken_port =
     \<lparr>is_open = True, written = [], attempts = 0, faults = (\<lambda>k. True),
      replies = (\<lambda>k. [])\<rparr>"

text \<open>
  A port on which every write goes through and the device answers every command with the
  line \<open>OK\<close>, complete 300 ms after the read begins.
\<close>

definition replying_port :: serial_port where
  "replying_port =
     \<lparr>is_open = True, written = [], attempts = 0, faults = (\<lambda>k. False),
      replies = (\<lambda>k. [(''OK'', 300)])\<rparr>"

text \<open>
  A thread of \<open>rufus.py\<close> at time 0 on the healthy port, and a thread of the modular
  implementation at time 0 on the healthy port.
\<close>

definition idle_state :: rufus where
  "idle_state = \<lparr>now = 0, uno = Some healthy_port, console = []\<rparr>"


section \<open>Clamping\<close>

lemma SERVO_LIMITS_wellformed:
  "(n, l) \<in> set SERVO_LIMITS \<Longrightarrow> min_a l \<le> rest l \<and> rest l \<le> max_a l"
  by (auto simp: SERVO_LIMITS_def)

text \<open>
  C9. For every joint \<open>J\<close> of \<open>SERVO_LIMITS\<close> (and for every safe range with
  \<open>min \<le> max\<close>) and every angle \<open>A\<close>, the clamped angle is
  \<open>max(J.min, min(J.max, A))\<close>, it lies in \<open>[J.min, J.max]\<close>, and clamping is the identity
  on an angle that is already in the range.
\<close>

theorem clamp_in_range_and_identity:
  assumes "(n, J) \<in> set SERVO_LIMITS \<or> min_a J \<le> max_a J"
  shows "clamp J A = max (min_a J) (min (max_a J) A)
       \<and> min_a J \<le> clamp J A \<and> clamp J A \<le> max_a J
       \<and> (min_a J \<le> A \<and> A \<le> max_a J \<longrightarrow> clamp J A = A)"
proof -
  have "min_a J \<le> max_a J"
    using assms SERVO_LIMITS_wellformed [of n J] by auto
  then show ?thesis
    by (simp add: clamp_def)
qed

theorem clamp_in_range_and_identity_witness:
  "clamp \<lparr>min_a = 40, max_a = 120, rest = 90\<rparr> 200 = 120
   \<and> clamp \<lparr>min_a = 40, max_a = 120, rest = 90\<rparr> 100 = 100"
  using clamp_in_range_and_identity [of "''head''" "\<lparr>min_a = 40, max_a = 120, rest = 90\<rparr>" 200]
    clamp_in_range_and_identity [of "''head''" "\<lparr>min_a = 40, max_a = 120, rest = 90\<rparr>" 100]
  by (simp add: SERVO_LIMITS_def)

section \<open>The modular implementation: gestures and the degraded mode\<close>

lemma choice3: "(r::nat) mod 3 = 0 \<or> r mod 3 = 1 \<or> r mod 3 = 2"
  by arith

lemma randint_bounds: "- 15 \<le> random_randint (- 15) 15 r \<and> random_randint (- 15) 15 r \<le> 15"
proof -
  have "r mod 31 < 31" by simp
  then show ?thesis unfolding random_randint_def by simp
qed

lemma natural_movement_returns:
  "\<exists>c'. ArduinoController_natural_movement r1 r2 c = Inr c'"
  using choice3 [of r1]
  by (auto simp: ArduinoController_natural_movement_def random_choice_def dict_keys_def
      SERVO_PINS_def dict_get_def SERVO_HOME_POSITIONS_def Let_def)

lemma send_command_sim:
  "connection c = None \<Longrightarrow> ArduinoController_send_command cmd c = (True, c)"
  by (simp add: ArduinoController_send_command_def)

lemma move_servo_sim:
  "connection c = None \<Longrightarrow> snd (move_servo servo angle c) = c"
  by (simp add: move_servo_def send_command_sim)

lemma time_sleep_connection [simp]: "connection (time_sleep ms c) = connection c"
  by (simp add: time_sleep_def)

lemma natural_movement_sim:
  "connection c = None \<Longrightarrow> ArduinoController_natural_movement r1 r2 c = Inr c' \<Longrightarrow> connection c' = None"
  by (auto simp: ArduinoController_natural_movement_def Let_def move_servo_sim split: sum.splits)

lemma gestures_sim:
  assumes "connection c = None"
  shows "connection (gesture_yes c) = None" "connection (gesture_no c) = None"
    "connection (gesture_neutral c) = None" "connection (gesture_head_tilt c) = None"
    "connection (gesture_thinking c) = None" "connection (gesture_wave c) = None"
    "connection (gesture_excited c) = None"
  using assms
  by (simp_all add: gesture_yes_def gesture_no_def gesture_neutral_def gesture_head_tilt_def
      gesture_thinking_def gesture_wave_def gesture_excited_def ArduinoController_gesture_yes_def
      ArduinoController_gesture_no_def ArduinoController_gesture_neutral_def send_command_sim
      move_servo_sim Let_def upt_rec)

text \<open>
  C8. \<open>perform_gesture\<close> returns \<open>False\<close> exactly when the gesture name is not one of the
  eight registered names; for such a name the controller, and with it the port, is left
  as it was (no write is attempted). For a registered name it returns \<open>True\<close> and raises
  nothing whatever the port does: the statement holds for every controller state, so for
  every port and every schedule of failing writes.
\<close>

theorem perform_gesture_result:
  "\<exists>c'. perform_gesture name r1 r2 c =
          Inr (name \<in> {''yes'', ''no'', ''neutral'', ''head_tilt'', ''thinking'', ''wave'',
                          ''excited'', ''natural_movement''}, c')
     \<and> (name \<notin> {''yes'', ''no'', ''neutral'', ''head_tilt'', ''thinking'', ''wave'',
                   ''excited'', ''natural_movement''} \<longrightarrow> c' = c)"
  using natural_movement_returns [of r1 r2 c]
  by (auto simp: perform_gesture_def gestures_def natural_movement_def)

theorem perform_gesture_result_witness:
  "perform_gesture ''dance'' 0 0 \<lparr>clock = 0, connection = Some broken_port\<rparr>
     = Inr (False, \<lparr>clock = 0, connection = Some broken_port\<rparr>)
   \<and> (\<exists>c'. perform_gesture ''wave'' 0 0 \<lparr>clock = 0, connection = Some broken_port\<rparr> = Inr (True, c'))"
  using perform_gesture_result [of "''dance''" 0 0 "\<lparr>clock = 0, connection = Some broken_port\<rparr>"]
    perform_gesture_result [of "''wave''" 0 0 "\<lparr>clock = 0, connection = Some broken_port\<rparr>"]
  by simp

text \<open>
  C4, as stated, fails: on a link that never connected, \<open>ArduinoController.send_command\<close>
  reports the send as performed: it returns \<open>True\<close>, the value it returns for a write
  that went through.
\<close>

theorem never_connected_reports_success:
  "ArduinoController_send_command ''yes'' (ArduinoController_connect None \<lparr>clock = 0, connection = None\<rparr>)
     = (True, \<lparr>clock = 0, connection = None\<rparr>)
   \<and> fst (ArduinoController_send_command ''yes'' \<lparr>clock = 0, connection = Some healthy_port\<rparr>) = True"
  by (simp add: ArduinoController_send_command_def ArduinoController_connect_def healthy_port_def
      port_write_def)

text \<open>
  C4, amended. When the link never connects, every \<open>ArduinoController.send_command\<close>
  returns \<open>True\<close> and leaves the controller as it was; every registered gesture returns
  \<open>True\<close> without raising, and the controller still has no port afterwards, so nothing
  was written; in \<open>rufus.py\<close>, \<open>open_arduino\<close> yields \<open>None\<close> and \<open>send_command\<close> only
  prints the simulation line.
\<close>

theorem never_connected_degraded:
  "ArduinoController_send_command cmd (ArduinoController_connect None c)
     = (True, ArduinoController_connect None c)
   \<and> (name \<in> {''yes'', ''no'', ''neutral'', ''head_tilt'', ''thinking'', ''wave'', ''excited'',
                ''natural_movement''} \<longrightarrow>
        (\<exists>c'. perform_gesture name r1 r2 (ArduinoController_connect None c) = Inr (True, c')
              \<and> connection c' = None))
   \<and> snd (send_command cmd (open_arduino None s))
       = (open_arduino None s)\<lparr>console := console (open_arduino None s) @ [Simulation cmd]\<rparr>
   \<and> uno (open_arduino None s) = None"
proof -
  let ?c = "ArduinoController_connect None c"
  have n: "connection ?c = None" by (simp add: ArduinoController_connect_def)
  obtain c' where nm: "ArduinoController_natural_movement r1 r2 ?c = Inr c'"
    using natural_movement_returns by blast
  have nm': "connection c' = None" using natural_movement_sim [OF n nm] .
  have 1: "ArduinoController_send_command cmd ?c = (True, ?c)" using n by (rule send_command_sim)
  have 2: "name \<in> {''yes'', ''no'', ''neutral'', ''head_tilt'', ''thinking'', ''wave'', ''excited'',
                ''natural_movement''} \<longrightarrow>
        (\<exists>c'. perform_gesture name r1 r2 ?c = Inr (True, c') \<and> connection c' = None)"
    using nm nm' gestures_sim [OF n]
    by (auto simp: perform_gesture_def gestures_def natural_movement_def)
  have 3: "uno (open_arduino None s) = None" by (simp add: open_arduino_def)
  have 4: "snd (send_command cmd (open_arduino None s))
       = (open_arduino None s)\<lparr>console := console (open_arduino None s) @ [Simulation cmd]\<rparr>"
    using 3 by (simp add: send_command_def)
  show ?thesis using 1 2 3 4 by blast
qed

theorem never_connected_degraded_witness:
  "(\<exists>c'. perform_gesture ''yes'' 0 0 (ArduinoController_connect None \<lparr>clock = 0, connection = None\<rparr>)
       = Inr (True, c') \<and> connection c' = None)"
  using never_connected_degraded [of "''yes''" "\<lparr>clock = 0, connection = None\<rparr>" "''yes''" 0 0
      "\<lparr>now = 0, uno = None, console = []\<rparr>"]
  by simp

section \<open>What a send reports\<close>

text \<open>
  C5, as stated, fails in \<open>rufus.py\<close>: when the write raises, \<open>send_command\<close> writes
  nothing and hands its caller the same value (\<open>None\<close>) as when the command went out.
\<close>

theorem rufus_send_command_drops_silently:
  "fst (send_command ''yes'' \<lparr>now = 0, uno = Some broken_port, console = []\<rparr>)
     = fst (send_command ''yes'' \<lparr>now = 0, uno = Some healthy_port, console = []\<rparr>)
   \<and> writes_of (snd (send_command ''yes'' \<lparr>now = 0, uno = Some broken_port, console = []\<rparr>)) = []
   \<and> writes_of (snd (send_command ''yes'' \<lparr>now = 0, uno = Some healthy_port, console = []\<rparr>))
       = [(0, ''yes'' @ newline)]"
  by (simp add: send_command_def port_write_def broken_port_def healthy_port_def writes_of_def
      sleep_def)

text \<open>
  C5, amended. \<open>ArduinoController.send_command\<close> returns an outcome for every command:
  \<open>True\<close> in simulation mode (nothing written), and on a port \<open>True\<close> exactly when the
  write went through, in which case the line is on the wire, and \<open>False\<close> when it raised,
  in which case nothing was written. \<open>send_command\<close> of \<open>rufus.py\<close> returns no value: it
  reports on the console only, with the simulation line, the command sent and the replies
  read, or the serial error.
\<close>

theorem send_command_outcome:
  "(case connection c of
      None \<Rightarrow> ArduinoController_send_command cmd c = (True, c)
    | Some p \<Rightarrow>
        fst (ArduinoController_send_command cmd c) = (is_open p \<and> \<not> faults p (attempts p))
      \<and> writes_of_controller (snd (ArduinoController_send_command cmd c))
          = written p @ (if fst (ArduinoController_send_command cmd c)
                         then [(clock c, cmd @ newline)] else []))
   \<and> (case uno s of
        None \<Rightarrow> console (snd (send_command cmd s)) = console s @ [Simulation cmd]
      | Some p \<Rightarrow>
          (if is_open p \<and> \<not> faults p (attempts p)
           then writes_of (snd (send_command cmd s)) = written p @ [(now s, cmd @ newline)]
              \<and> console (snd (send_command cmd s))
                  = console s @ [Arduino cmd]
                      @ map Reply (filter (\<lambda>r. r \<noteq> []) (map fst (replies p (attempts p))))
           else writes_of (snd (send_command cmd s)) = written p
              \<and> console (snd (send_command cmd s)) = console s @ [SerialError]))"
  by (auto simp: ArduinoController_send_command_def port_write_def Let_def
      writes_of_controller_def send_command_def writes_of_def sleep_def split: option.splits)

theorem send_command_outcome_witness:
  "fst (ArduinoController_send_command ''yes'' \<lparr>clock = 0, connection = Some broken_port\<rparr>) = False
   \<and> writes_of_controller
        (snd (ArduinoController_send_command ''yes'' \<lparr>clock = 0, connection = Some broken_port\<rparr>)) = []
   \<and> console (snd (send_command ''yes'' \<lparr>now = 0, uno = Some broken_port, console = []\<rparr>))
       = [SerialError]"
  using send_command_outcome [where c = "\<lparr>clock = 0, connection = Some broken_port\<rparr>"
      and cmd = "''yes''" and s = "\<lparr>now = 0, uno = Some broken_port, console = []\<rparr>"]
  by (simp add: broken_port_def)

section \<open>The angles that reach the wire\<close>

lemma send_command_writes:
  assumes "uno s = Some p" "is_open p" "\<not> faults p (attempts p)"
  shows "writes_of (snd (send_command cmd s)) = written p @ [(now s, cmd @ newline)]"
    and "now (snd (send_command cmd s)) = now s + 100 + reply_time p (attempts p)"
    and "\<exists>p'. uno (snd (send_command cmd s)) = Some p' \<and> is_open p'
           \<and> attempts p' = attempts p + 1 \<and> faults p' = faults p \<and> replies p' = replies p
           \<and> written p' = written p @ [(now s, cmd @ newline)]"
  using assms by (simp_all add: send_command_def port_write_def Let_def writes_of_def sleep_def)

lemma servo_limits_of_choice:
  "\<exists>l. (random_choice [''head'', ''left_arm'', ''right_arm''] r, l) \<in> set SERVO_LIMITS
      \<and> dict_get SERVO_LIMITS (random_choice [''head'', ''left_arm'', ''right_arm''] r) = Inr l"
  using choice3 [of r] by (auto simp: random_choice_def SERVO_LIMITS_def dict_get_def)

lemma idle_movement_clamped:
  assumes "uno s = Some p" "is_open p" "\<forall>k. \<not> faults p k"
  shows "\<exists>servo l s'. (servo, l) \<in> set SERVO_LIMITS
     \<and> idle_movement r1 r2 s = Inr s'
     \<and> writes_of s' = written p @
         [(now s, servo @ ''_'' @ str_int (clamp l (rest l + random_randint (- 15) 15 r2)) @ newline),
          (now s + 600 + reply_time p (attempts p), servo @ ''_'' @ str_int (rest l) @ newline)]
     \<and> min_a l \<le> clamp l (rest l + random_randint (- 15) 15 r2)
     \<and> clamp l (rest l + random_randint (- 15) 15 r2) \<le> max_a l"
proof -
  let ?servo = "random_choice [''head'', ''left_arm'', ''right_arm''] r1"
  obtain l where l: "(?servo, l) \<in> set SERVO_LIMITS" "dict_get SERVO_LIMITS ?servo = Inr l"
    using servo_limits_of_choice by blast
  let ?a = "clamp l (rest l + random_randint (- 15) 15 r2)"
  let ?s1 = "snd (send_command (?servo @ ''_'' @ str_int ?a) s)"
  have f: "\<not> faults p (attempts p)" "\<not> faults p (attempts p + 1)"
    using assms(3) by auto
  from send_command_writes(3) [OF assms(1,2) f(1), of "?servo @ ''_'' @ str_int ?a"]
  obtain p1 where p1: "uno ?s1 = Some p1" "is_open p1" "attempts p1 = attempts p + 1"
      "faults p1 = faults p"
      "written p1 = written p @ [(now s, (?servo @ ''_'' @ str_int ?a) @ newline)]"
    by blast
  have n1: "now ?s1 = now s + 100 + reply_time p (attempts p)"
    using send_command_writes(2) [OF assms(1,2) f(1)] .
  let ?s2 = "sleep 500 ?s1"
  have u2: "uno ?s2 = Some p1" "now ?s2 = now s + 600 + reply_time p (attempts p)"
    using p1 n1 by (simp_all add: sleep_def)
  have f1: "\<not> faults p1 (attempts p1)"
    using p1 f by simp
  have w: "writes_of (snd (send_command (?servo @ ''_'' @ str_int (rest l)) ?s2))
      = written p1 @ [(now ?s2, (?servo @ ''_'' @ str_int (rest l)) @ newline)]"
    using send_command_writes(1) [OF u2(1) p1(2) f1] .
  have im: "idle_movement r1 r2 s = Inr (snd (send_command (?servo @ ''_'' @ str_int (rest l)) ?s2))"
    using l(2) by (simp add: idle_movement_def Let_def)
  have r: "min_a l \<le> ?a \<and> ?a \<le> max_a l"
    using SERVO_LIMITS_wellformed [OF l(1)] by (simp add: clamp_def)
  show ?thesis
    using l(1) im w p1(5) u2(2) r by auto
qed

lemma move_servo_writes:
  assumes "servo \<in> set (dict_keys SERVO_PINS)" "connection c = Some p" "is_open p"
    "\<not> faults p (attempts p)"
  shows "move_servo servo angle c =
     (True, c\<lparr>connection := Some (p\<lparr>attempts := attempts p + 1,
                written := written p @ [(clock c, servo @ ''_'' @ str_int angle @ newline)]\<rparr>)\<rparr>)"
  using assms
  by (simp add: move_servo_def ArduinoController_send_command_def port_write_def Let_def)

lemma natural_movement_in_range:
  assumes "connection c = Some p" "is_open p" "\<forall>k. \<not> faults p k"
  shows "\<exists>servo home lo hi c'. (servo, home) \<in> set SERVO_HOME_POSITIONS
     \<and> (servo, (lo, hi)) \<in> set SERVO_RANGES
     \<and> ArduinoController_natural_movement r1 r2 c = Inr c'
     \<and> writes_of_controller c' = written p @
         [(clock c, servo @ ''_''
             @ str_int (max 0 (min 180 (home + random_randint (- 15) 15 r2))) @ newline),
          (clock c + 500, servo @ ''_'' @ str_int home @ newline)]
     \<and> lo \<le> max 0 (min 180 (home + random_randint (- 15) 15 r2))
     \<and> max 0 (min 180 (home + random_randint (- 15) 15 r2)) \<le> hi"
proof -
  let ?servo = "random_choice (dict_keys SERVO_PINS) r1"
  have "\<exists>home lo hi. (?servo, home) \<in> set SERVO_HOME_POSITIONS
      \<and> (?servo, (lo, hi)) \<in> set SERVO_RANGES
      \<and> dict_get SERVO_HOME_POSITIONS ?servo = Inr home
      \<and> ?servo \<in> set (dict_keys SERVO_PINS)
      \<and> lo \<le> home - 15 \<and> home + 15 \<le> hi \<and> 0 \<le> lo \<and> hi \<le> 180"
    using choice3 [of r1]
    by (auto simp: random_choice_def dict_keys_def SERVO_PINS_def SERVO_HOME_POSITIONS_def
        SERVO_RANGES_def dict_get_def)
  then obtain home lo hi where h: "(?servo, home) \<in> set SERVO_HOME_POSITIONS"
      "(?servo, (lo, hi)) \<in> set SERVO_RANGES" "dict_get SERVO_HOME_POSITIONS ?servo = Inr home"
      "?servo \<in> set (dict_keys SERVO_PINS)"
      "lo \<le> home - 15" "home + 15 \<le> hi" "0 \<le> lo" "hi \<le> 180"
    by blast
  let ?a = "max 0 (min 180 (home + random_randint (- 15) 15 r2))"
  have f: "\<not> faults p (attempts p)" "\<not> faults p (attempts p + 1)"
    using assms(3) by auto
  let ?p1 = "p\<lparr>attempts := attempts p + 1,
      written := written p @ [(clock c, ?servo @ ''_'' @ str_int ?a @ newline)]\<rparr>"
  let ?c1 = "c\<lparr>connection := Some ?p1\<rparr>"
  have m1: "move_servo ?servo ?a c = (True, ?c1)"
    using move_servo_writes [OF h(4) assms(1,2) f(1)] .
  let ?c2 = "time_sleep 500 ?c1"
  have c2: "connection ?c2 = Some ?p1" "clock ?c2 = clock c + 500"
    by (simp_all add: time_sleep_def)
  have m2: "writes_of_controller (snd (move_servo ?servo home ?c2))
      = written ?p1 @ [(clock ?c2, ?servo @ ''_'' @ str_int home @ newline)]"
    using move_servo_writes [OF h(4) c2(1), of home] assms(2) f(2)
    by (simp add: writes_of_controller_def)
  have nm: "ArduinoController_natural_movement r1 r2 c = Inr (snd (move_servo ?servo home ?c2))"
    using h(3) m1 by (simp add: ArduinoController_natural_movement_def Let_def)
  have r: "lo \<le> ?a \<and> ?a \<le> hi"
    using randint_bounds [of r2] h(5-8) by auto
  show ?thesis
    using h(1,2) nm m2 c2(2) r by auto
qed

lemma gesture_steps_written:
  assumes "is_open p" and "\<forall>k. \<not> faults p k"
  shows "writes_of_controller (gesture_head_tilt \<lparr>clock = t, connection = Some p\<rparr>)
           = written p @ [(t, ''head_'' @ str_int 100 @ newline),
                          (t + 1000, ''head_'' @ str_int 80 @ newline)]"
    and "writes_of_controller (gesture_thinking \<lparr>clock = t, connection = Some p\<rparr>)
           = written p @ [(t, ''head_'' @ str_int 70 @ newline),
                          (t + 500, ''head_'' @ str_int 90 @ newline),
                          (t + 1000, ''head_'' @ str_int 80 @ newline)]"
    and "writes_of_controller (gesture_wave \<lparr>clock = t, connection = Some p\<rparr>)
           = written p @ [(t, ''right_arm_'' @ str_int 135 @ newline),
                          (t + 200, ''right_arm_'' @ str_int 150 @ newline),
                          (t + 400, ''right_arm_'' @ str_int 135 @ newline),
                          (t + 600, ''right_arm_'' @ str_int 150 @ newline),
                          (t + 800, ''right_arm_'' @ str_int 135 @ newline)]"
    and "writes_of_controller (gesture_excited \<lparr>clock = t, connection = Some p\<rparr>)
           = written p @ [(t, ''left_arm_'' @ str_int 60 @ newline),
                          (t, ''right_arm_'' @ str_int 150 @ newline),
                          (t + 200, ''left_arm_'' @ str_int 40 @ newline),
                          (t + 200, ''right_arm_'' @ str_int 135 @ newline),
                          (t + 400, ''left_arm_'' @ str_int 60 @ newline),
                          (t + 400, ''right_arm_'' @ str_int 150 @ newline),
                          (t + 600, ''left_arm_'' @ str_int 40 @ newline),
                          (t + 600, ''right_arm_'' @ str_int 135 @ newline),
                          (t + 800, ''left_arm_'' @ str_int 60 @ newline),
                          (t + 800, ''right_arm_'' @ str_int 150 @ newline),
                          (t + 1000, ''left_arm_'' @ str_int 40 @ newline),
                          (t + 1000, ''right_arm_'' @ str_int 135 @ newline)]"
  using assms
  by (simp_all add: gesture_head_tilt_def gesture_thinking_def gesture_wave_def gesture_excited_def
      move_servo_def ArduinoController_send_command_def port_write_def time_sleep_def
      writes_of_controller_def dict_keys_def SERVO_PINS_def Let_def upt_rec)

lemma gesture_steps_in_range:
  "\<forall>(j, a) \<in> set [(''head'', 100), (''head'', 80), (''head'', 70), (''head'', 90),
       (''right_arm'', 135), (''right_arm'', 150), (''left_arm'', 60), (''left_arm'', 40)].
     \<exists>lo hi. (j, (lo, hi)) \<in> set SERVO_RANGES \<and> lo \<le> a \<and> a \<le> hi"
  by (simp add: SERVO_RANGES_def)

text \<open>
  C1, as stated, fails: \<open>move_servo\<close> does not clamp. On a healthy port a request to move
  the head (safe range 40 to 120) to 200 writes the line \<open>head_200\<close>.
\<close>

theorem move_servo_unclamped:
  "writes_of_controller (snd (move_servo ''head'' 200 \<lparr>clock = 0, connection = Some healthy_port\<rparr>))
     = [(0, ''head_200'' @ newline)]"
  by (simp add: move_servo_def dict_keys_def SERVO_PINS_def ArduinoController_send_command_def
      port_write_def healthy_port_def writes_of_controller_def str_int_def str_nat.simps
      digit_char_def)

text \<open>
  C1, amended. On a port whose writes go through: an explicit \<open>move_servo\<close> of a known
  servo writes the caller's angle as it is; the idle movement of \<open>rufus.py\<close> writes the
  angle \<open>clamp(J, rest + offset)\<close>, which lies in the safe range of the joint, and then the
  rest angle; the idle movement of \<open>ArduinoController\<close> writes
  \<open>max(0, min(180, home + offset))\<close>, which lies in the joint's range of \<open>SERVO_RANGES\<close>,
  and then the home angle; the steps of the gestures \<open>head_tilt\<close>, \<open>thinking\<close>, \<open>wave\<close>
  and \<open>excited\<close> write the angles that the code of the gesture fixes, through \<open>move_servo\<close>
  and so without a clamp, and each of these angles lies in the joint's range of
  \<open>SERVO_RANGES\<close>.
\<close>

theorem angles_on_the_wire:
  assumes "is_open p" and "\<forall>k. \<not> faults p k"
  shows "(servo \<in> set (dict_keys SERVO_PINS) \<longrightarrow>
           writes_of_controller (snd (move_servo servo angle \<lparr>clock = t, connection = Some p\<rparr>))
             = written p @ [(t, servo @ ''_'' @ str_int angle @ newline)])
       \<and> (\<exists>servo l s'. (servo, l) \<in> set SERVO_LIMITS
            \<and> idle_movement r1 r2 \<lparr>now = t, uno = Some p, console = out\<rparr> = Inr s'
            \<and> writes_of s' = written p @
                [(t, servo @ ''_''
                   @ str_int (clamp l (rest l + random_randint (- 15) 15 r2)) @ newline),
                 (t + 600 + reply_time p (attempts p),
                  servo @ ''_'' @ str_int (rest l) @ newline)]
            \<and> min_a l \<le> clamp l (rest l + random_randint (- 15) 15 r2)
            \<and> clamp l (rest l + random_randint (- 15) 15 r2) \<le> max_a l)
       \<and> (\<exists>servo home lo hi c'. (servo, home) \<in> set SERVO_HOME_POSITIONS
            \<and> (servo, (lo, hi)) \<in> set SERVO_RANGES
            \<and> ArduinoController_natural_movement r1 r2 \<lparr>clock = t, connection = Some p\<rparr> = Inr c'
            \<and> writes_of_controller c' = written p @
                [(t, servo @ ''_''
                   @ str_int (max 0 (min 180 (home + random_randint (- 15) 15 r2))) @ newline),
                 (t + 500, servo @ ''_'' @ str_int home @ newline)]
            \<and> lo \<le> max 0 (min 180 (home + random_randint (- 15) 15 r2))
            \<and> max 0 (min 180 (home + random_randint (- 15) 15 r2)) \<le> hi)
       \<and> writes_of_controller (gesture_head_tilt \<lparr>clock = t, connection = Some p\<rparr>)
           = written p @ [(t, ''head_'' @ str_int 100 @ newline),
                          (t + 1000, ''head_'' @ str_int 80 @ newline)]
       \<and> writes_of_controller (gesture_thinking \<lparr>clock = t, connection = Some p\<rparr>)
           = written p @ [(t, ''head_'' @ str_int 70 @ newline),
                          (t + 500, ''head_'' @ str_int 90 @ newline),
                          (t + 1000, ''head_'' @ str_int 80 @ newline)]
       \<and> writes_of_controller (gesture_wave \<lparr>clock = t, connection = Some p\<rparr>)
           = written p @ [(t, ''right_arm_'' @ str_int 135 @ newline),
                          (t + 200, ''right_arm_'' @ str_int 150 @ newline),
                          (t + 400, ''right_arm_'' @ str_int 135 @ newline),
                          (t + 600, ''right_arm_'' @ str_int 150 @ newline),
                          (t + 800, ''right_arm_'' @ str_int 135 @ newline)]
       \<and> writes_of_controller (gesture_excited \<lparr>clock = t, connection = Some p\<rparr>)
           = written p @ [(t, ''left_arm_'' @ str_int 60 @ newline),
                          (t, ''right_arm_'' @ str_int 150 @ newline),
                          (t + 200, ''left_arm_'' @ str_int 40 @ newline),
                          (t + 200, ''right_arm_'' @ str_int 135 @ newline),
                          (t + 400, ''left_arm_'' @ str_int 60 @ newline),
                          (t + 400, ''right_arm_'' @ str_int 150 @ newline),
                          (t + 600, ''left_arm_'' @ str_int 40 @ newline),
                          (t + 600, ''right_arm_'' @ str_int 135 @ newline),
                          (t + 800, ''left_arm_'' @ str_int 60 @ newline),
                          (t + 800, ''right_arm_'' @ str_int 150 @ newline),
                          (t + 1000, ''left_arm_'' @ str_int 40 @ newline),
                          (t + 1000, ''right_arm_'' @ str_int 135 @ newline)]
       \<and> (\<forall>(j, a) \<in> set [(''head'', 100), (''head'', 80), (''head'', 70), (''head'', 90),
              (''right_arm'', 135), (''right_arm'', 150), (''left_arm'', 60), (''left_arm'', 40)].
            \<exists>lo hi. (j, (lo, hi)) \<in> set SERVO_RANGES \<and> lo \<le> a \<and> a \<le> hi)"
proof -
  let ?c = "\<lparr>clock = t, connection = Some p\<rparr>"
  let ?s = "\<lparr>now = t, uno = Some p, console = out\<rparr>"
  have f: "\<not> faults p (attempts p)"
    using assms(2) by simp
  have 1: "servo \<in> set (dict_keys SERVO_PINS) \<longrightarrow>
           writes_of_controller (snd (move_servo servo angle ?c))
             = written p @ [(t, servo @ ''_'' @ str_int angle @ newline)]"
  proof
    assume k: "servo \<in> set (dict_keys SERVO_PINS)"
    show "writes_of_controller (snd (move_servo servo angle ?c))
             = written p @ [(t, servo @ ''_'' @ str_int angle @ newline)]"
      using move_servo_writes [OF k, of ?c p angle] assms(1) f
      by (simp add: writes_of_controller_def)
  qed
  have 2: "\<exists>servo l s'. (servo, l) \<in> set SERVO_LIMITS
            \<and> idle_movement r1 r2 ?s = Inr s'
            \<and> writes_of s' = written p @
                [(t, servo @ ''_''
                   @ str_int (clamp l (rest l + random_randint (- 15) 15 r2)) @ newline),
                 (t + 600 + reply_time p (attempts p),
                  servo @ ''_'' @ str_int (rest l) @ newline)]
            \<and> min_a l \<le> clamp l (rest l + random_randint (- 15) 15 r2)
            \<and> clamp l (rest l + random_randint (- 15) 15 r2) \<le> max_a l"
    using idle_movement_clamped [of ?s p r1 r2] assms by simp
  have 3: "\<exists>servo home lo hi c'. (servo, home) \<in> set SERVO_HOME_POSITIONS
            \<and> (servo, (lo, hi)) \<in> set SERVO_RANGES
            \<and> ArduinoController_natural_movement r1 r2 ?c = Inr c'
            \<and> writes_of_controller c' = written p @
                [(t, servo @ ''_''
                   @ str_int (max 0 (min 180 (home + random_randint (- 15) 15 r2))) @ newline),
                 (t + 500, servo @ ''_'' @ str_int home @ newline)]
            \<and> lo \<le> max 0 (min 180 (home + random_randint (- 15) 15 r2))
            \<and> max 0 (min 180 (home + random_randint (- 15) 15 r2)) \<le> hi"
    using natural_movement_in_range [of ?c p r1 r2] assms by simp
  note g = gesture_steps_written [OF assms, of t]
  show ?thesis
    by (intro conjI 1 2 3 g gesture_steps_in_range)
qed

theorem angles_on_the_wire_witness:
  "writes_of_controller (snd (move_servo ''head'' 200 \<lparr>clock = 0, connection = Some healthy_port\<rparr>))
     = [(0, ''head_200'' @ newline)]
   \<and> (\<exists>s'. idle_movement 0 30 \<lparr>now = 0, uno = Some healthy_port, console = []\<rparr> = Inr s')"
  using angles_on_the_wire [where p = healthy_port and servo = "''head''" and angle = 200
      and t = 0 and ?r1.0 = 0 and ?r2.0 = 30 and out = "[]"]
  by (auto simp: healthy_port_def dict_keys_def SERVO_PINS_def str_int_def str_nat.simps
      digit_char_def)

section \<open>The idle animation loop\<close>

lemma sleep_chunks_running:
  "(\<forall>k. 1 \<le> k \<and> k \<le> n \<longrightarrow> run (now s + 100 * k))
   \<Longrightarrow> sleep_chunks run n s = (True, s\<lparr>now := now s + 100 * n\<rparr>)"
proof (induction n arbitrary: s)
  case 0
  then show ?case by simp
next
  case (Suc n)
  have r1: "run (now s + 100)" using Suc.prems [rule_format, of 1] by simp
  have "\<forall>k. 1 \<le> k \<and> k \<le> n \<longrightarrow> run (now (sleep 100 s) + 100 * k)"
  proof (intro allI impI)
    fix k assume "1 \<le> k \<and> k \<le> n"
    then have "run (now s + 100 * Suc k)" using Suc.prems by auto
    then show "run (now (sleep 100 s) + 100 * k)" by (simp add: sleep_def add.assoc)
  qed
  from Suc.IH [OF this] r1 show ?case
    by (simp add: sleep_def Let_def add.assoc)
qed

lemma sleep_chunks_stopped:
  "now s < T \<Longrightarrow> T \<le> now s + 100 * n
   \<Longrightarrow> \<exists>t'. sleep_chunks (\<lambda>t. t < T) n s = (False, s\<lparr>now := t'\<rparr>) \<and> T \<le> t' \<and> t' < T + 100"
proof (induction n arbitrary: s)
  case 0
  then show ?case by simp
next
  case (Suc n)
  show ?case
  proof (cases "now s + 100 < T")
    case True
    have "\<exists>t'. sleep_chunks (\<lambda>t. t < T) n (sleep 100 s) = (False, (sleep 100 s)\<lparr>now := t'\<rparr>) \<and> T \<le> t' \<and> t' < T + 100"
      using Suc.prems True by (intro Suc.IH) (simp_all add: sleep_def)
    then show ?thesis using True by (simp add: sleep_def Let_def)
  next
    case False
    have "sleep_chunks (\<lambda>t. t < T) (Suc n) s = (False, s\<lparr>now := now s + 100\<rparr>)"
      using False by (simp add: sleep_def Let_def)
    moreover have "T \<le> now s + 100 \<and> now s + 100 < T + 100"
      using False Suc.prems by simp
    ultimately show ?thesis by blast
  qed
qed

lemma sleep_chunks_shape:
  "sleep_chunks run n s = (b, s') \<Longrightarrow> s' = s\<lparr>now := now s'\<rparr> \<and> now s \<le> now s' \<and> now s' \<le> now s + 100 * n"
proof (induction n arbitrary: s)
  case 0
  then show ?case by auto
next
  case (Suc n)
  show ?case
  proof (cases "run (now s + 100)")
    case True
    with Suc.prems have "sleep_chunks run n (sleep 100 s) = (b, s')" by (simp add: sleep_def Let_def)
    from Suc.IH [OF this] show ?thesis 
      by (auto simp add: sleep_def)
  next
    case False
    with Suc.prems show ?thesis by (auto simp: sleep_def Let_def)
  qed
qed


lemma sleep_chunks_keeps_running:
  "sleep_chunks run n s = (True, s') \<Longrightarrow> run (now s) \<Longrightarrow> run (now s')"
proof (induction n arbitrary: s)
  case 0
  then show ?case by simp
next
  case (Suc n)
  show ?case
  proof (cases "run (now s + 100)")
    case True
    with Suc.prems have "sleep_chunks run n (sleep 100 s) = (True, s')"
      by (simp add: sleep_def Let_def)
    from Suc.IH [OF this] True show ?thesis by (simp add: sleep_def)
  next
    case False
    with Suc.prems show ?thesis by (simp add: sleep_def Let_def)
  qed
qed

lemma writes_of_now [simp]: "writes_of (s\<lparr>now := t\<rparr>) = writes_of s"
  by (simp add: writes_of_def)

lemma reply_bounded_now [simp]: "reply_bounded R (s\<lparr>now := t\<rparr>) = reply_bounded R s"
  by (simp add: reply_bounded_def)

lemma send_command_effect:
  assumes "reply_bounded R s"
  shows "\<exists>new. writes_of (snd (send_command cmd s)) = writes_of s @ new
     \<and> (\<forall>w\<in>set new. fst w = now s)
     \<and> now s \<le> now (snd (send_command cmd s))
     \<and> now (snd (send_command cmd s)) \<le> now s + 100 + R
     \<and> reply_bounded R (snd (send_command cmd s))"
proof (cases "uno s")
  case None
  then show ?thesis
    using assms by (simp add: send_command_def writes_of_def reply_bounded_def)
next
  case (Some p)
  then have b: "reply_time p (attempts p) \<le> R" and all: "\<forall>k. reply_time p k \<le> R"
    using assms by (simp_all add: reply_bounded_def)
  have rt: "\<And>a w. reply_time (p\<lparr>attempts := a, written := w\<rparr>) = reply_time p"
    and rt': "\<And>a. reply_time (p\<lparr>attempts := a\<rparr>) = reply_time p"
    by (simp_all add: reply_time_def fun_eq_iff)
  show ?thesis
    using Some b all
    by (auto simp: send_command_def port_write_def Let_def writes_of_def sleep_def
        reply_bounded_def rt rt')
qed

lemma idle_movement_effect:
  assumes "reply_bounded R s"
  shows "\<exists>s2 new. idle_movement r1 r2 s = Inr s2
     \<and> writes_of s2 = writes_of s @ new
     \<and> (\<forall>w\<in>set new. now s \<le> fst w \<and> fst w \<le> now s + 600 + R)
     \<and> (\<forall>w\<in>set new. fst w \<le> now s2)
     \<and> now s + 500 \<le> now s2 \<and> now s2 \<le> now s + 700 + 2 * R
     \<and> reply_bounded R s2"
proof -
  let ?servo = "random_choice [''head'', ''left_arm'', ''right_arm''] r1"
  obtain l where l: "dict_get SERVO_LIMITS ?servo = Inr l"
    using servo_limits_of_choice by blast
  let ?c1 = "?servo @ ''_'' @ str_int (clamp l (rest l + random_randint (- 15) 15 r2))"
  let ?c2 = "?servo @ ''_'' @ str_int (rest l)"
  let ?s1 = "snd (send_command ?c1 s)"
  let ?s2 = "sleep 500 ?s1"
  let ?s3 = "snd (send_command ?c2 ?s2)"
  have im: "idle_movement r1 r2 s = Inr ?s3"
    using l by (simp add: idle_movement_def Let_def)
  from send_command_effect [OF assms, of ?c1] obtain n1 where
    n1: "writes_of ?s1 = writes_of s @ n1" "\<forall>w\<in>set n1. fst w = now s"
      "now s \<le> now ?s1" "now ?s1 \<le> now s + 100 + R" "reply_bounded R ?s1"
    by blast
  have s2: "writes_of ?s2 = writes_of ?s1" "now ?s2 = now ?s1 + 500" "reply_bounded R ?s2"
    using n1(5) by (simp_all add: sleep_def writes_of_def)
  from send_command_effect [OF s2(3), of ?c2] obtain n2 where
    n2: "writes_of ?s3 = writes_of ?s2 @ n2" "\<forall>w\<in>set n2. fst w = now ?s2"
      "now ?s2 \<le> now ?s3" "now ?s3 \<le> now ?s2 + 100 + R" "reply_bounded R ?s3"
    by blast
  have w: "writes_of ?s3 = writes_of s @ (n1 @ n2)"
    using n1(1) n2(1) s2(1) by simp
  have b: "\<forall>w\<in>set (n1 @ n2). now s \<le> fst w \<and> fst w \<le> now s + 600 + R"
    using n1(2,3,4) n2(2) s2(2) by auto
  have b2: "\<forall>w\<in>set (n1 @ n2). fst w \<le> now ?s3"
    using n1(2,3,4) n2(2,3) s2(2) by auto
  have t: "now s + 500 \<le> now ?s3 \<and> now ?s3 \<le> now s + 700 + 2 * R"
    using n1(3,4) n2(3,4) s2(2) by simp
  show ?thesis
    using im w b b2 t n2(5) by blast
qed

lemma idle_loop_writes:
  "reply_bounded R s \<Longrightarrow>
   \<exists>new. writes_of (snd (idle_animation_loop E ds s)) = writes_of s @ new
     \<and> now s \<le> now (snd (idle_animation_loop E ds s))
     \<and> (\<forall>w\<in>set new. fst w \<le> now (snd (idle_animation_loop E ds s))
           \<and> (\<exists>c. c \<le> fst w \<and> fst w \<le> c + 600 + R \<and> \<not> locked_at E c \<and> running_at E c))"
proof (induction ds arbitrary: s)
  case Nil
  then show ?case by simp
next
  case (Cons d ds)
  obtain ri r1 r2 where d: "d = (ri, r1, r2)" by (cases d)
  let ?n = "random_uniform_ms IDLE_ANIMATION_MIN IDLE_ANIMATION_MAX ri div 100"
  show ?case
  proof (cases "running_at E (now s)")
    case False
    then show ?thesis using d by simp
  next
    case run: True
    obtain b s1 where sc: "sleep_chunks (running_at E) ?n s = (b, s1)"
      by (cases "sleep_chunks (running_at E) ?n s")
    from sleep_chunks_shape [OF sc] have sh: "s1 = s\<lparr>now := now s1\<rparr>" "now s \<le> now s1"
      by simp_all
    have w1: "writes_of s1 = writes_of s"
      using sh(1) writes_of_now by metis
    have rb1: "reply_bounded R s1"
      using sh(1) reply_bounded_now Cons.prems by metis
    show ?thesis
    proof (cases b)
      case False
      then show ?thesis using d run sc w1 sh(2) by simp
    next
      case True
      have r1: "running_at E (now s1)"
        using sleep_chunks_keeps_running [of "running_at E" ?n s s1] sc True run by simp
      from Cons.IH [OF rb1] obtain new1 where
        ih1: "writes_of (snd (idle_animation_loop E ds s1)) = writes_of s1 @ new1"
          "now s1 \<le> now (snd (idle_animation_loop E ds s1))"
          "\<forall>w\<in>set new1. fst w \<le> now (snd (idle_animation_loop E ds s1))
             \<and> (\<exists>c. c \<le> fst w \<and> fst w \<le> c + 600 + R \<and> \<not> locked_at E c \<and> running_at E c)"
        by blast
      show ?thesis
      proof (cases "locked_at E (now s1) \<or> uno s1 = None")
        case skip: True
        then have "idle_animation_loop E (d # ds) s = idle_animation_loop E ds s1"
          using d run sc True by auto
        then show ?thesis using ih1 w1 sh(2) by auto
      next
        case move: False
        from idle_movement_effect [OF rb1, of r1 r2] obtain s2 newm where
          m: "idle_movement r1 r2 s1 = Inr s2" "writes_of s2 = writes_of s1 @ newm"
            "\<forall>w\<in>set newm. now s1 \<le> fst w \<and> fst w \<le> now s1 + 600 + R"
            "\<forall>w\<in>set newm. fst w \<le> now s2"
            "now s1 + 500 \<le> now s2" "reply_bounded R s2"
          by blast
        from Cons.IH [OF m(6)] obtain new2 where
          ih2: "writes_of (snd (idle_animation_loop E ds s2)) = writes_of s2 @ new2"
            "now s2 \<le> now (snd (idle_animation_loop E ds s2))"
            "\<forall>w\<in>set new2. fst w \<le> now (snd (idle_animation_loop E ds s2))
               \<and> (\<exists>c. c \<le> fst w \<and> fst w \<le> c + 600 + R \<and> \<not> locked_at E c \<and> running_at E c)"
          by blast
        have eq: "idle_animation_loop E (d # ds) s = idle_animation_loop E ds s2"
          using d run sc True move m(1) by auto
        have a: "writes_of (snd (idle_animation_loop E ds s2)) = writes_of s @ (newm @ new2)"
          using ih2(1) m(2) w1 by simp
        have c: "\<forall>w\<in>set newm. fst w \<le> now (snd (idle_animation_loop E ds s2))
               \<and> (\<exists>c. c \<le> fst w \<and> fst w \<le> c + 600 + R \<and> \<not> locked_at E c \<and> running_at E c)"
        proof
          fix w assume w: "w \<in> set newm"
          have "now s1 \<le> fst w \<and> fst w \<le> now s1 + 600 + R \<and> \<not> locked_at E (now s1) \<and> running_at E (now s1)"
            using m(3) w move r1 by blast
          moreover have "fst w \<le> now (snd (idle_animation_loop E ds s2))"
            using m(4) w ih2(2) by fastforce
          ultimately show "fst w \<le> now (snd (idle_animation_loop E ds s2))
               \<and> (\<exists>c. c \<le> fst w \<and> fst w \<le> c + 600 + R \<and> \<not> locked_at E c \<and> running_at E c)"
            by blast
        qed
        have t: "now s \<le> now (snd (idle_animation_loop E ds s2))"
          using sh(2) m(5) ih2(2) by simp
        show ?thesis
          unfolding eq using a c ih2(3) t by (intro exI [of _ "newm @ new2"]) auto
      qed
    qed
  qed
qed

section \<open>Suppression\<close>

lemma interval_0: "random_uniform_ms IDLE_ANIMATION_MIN IDLE_ANIMATION_MAX 0 div 100 = 80"
  by (simp add: random_uniform_ms_def IDLE_ANIMATION_MIN_def IDLE_ANIMATION_MAX_def)

text \<open>
  C2, as stated, fails: the loop of \<open>rufus.py\<close> reads \<open>conversation_locked\<close> once per
  cycle, after the sleep. A cycle that passes the check at 8000 ms writes its movement
  and, on a link that sends no replies, its return to rest 600 ms later; when the foreground
  asserts suppression at 8050 ms, the second command is written at 8600 ms while
  suppression is held.
\<close>

theorem idle_send_while_suppressed:
  "writes_of (snd (idle_animation_loop
       \<lparr>running_at = (\<lambda>t. True), locked_at = (\<lambda>t. 8050 \<le> t)\<rparr> [(0, 0, 0)] idle_state))
     = [(8000, ''head_75'' @ newline), (8600, ''head_90'' @ newline)]
   \<and> locked_at \<lparr>running_at = (\<lambda>t. True), locked_at = (\<lambda>t. 8050 \<le> t)\<rparr> 8600"
proof -
  let ?E = "\<lparr>running_at = (\<lambda>t. True), locked_at = (\<lambda>t. 8050 \<le> t)\<rparr>"
  have sc: "sleep_chunks (running_at ?E) 80 idle_state = (True, idle_state\<lparr>now := now idle_state + 100 * 80\<rparr>)"
    by (rule sleep_chunks_running) simp
  have im: "idle_movement 0 0 (idle_state\<lparr>now := 8000\<rparr>)
     = Inr \<lparr>now = 8700, uno = Some (healthy_port\<lparr>attempts := 2,
           written := [(8000, ''head_75'' @ newline), (8600, ''head_90'' @ newline)]\<rparr>),
         console = [Arduino ''head_75'', Arduino ''head_90'']\<rparr>"
    by (simp add: idle_movement_def idle_state_def healthy_port_def random_choice_def dict_get_def
        SERVO_LIMITS_def random_randint_def clamp_def send_command_def port_write_def sleep_def
        reply_time_def str_int_def str_nat.simps digit_char_def Let_def)
  show ?thesis
    using sc im by (simp add: interval_0 idle_state_def writes_of_def)
qed

text \<open>
  C2, amended (\<open>rufus.py\<close>; the loop of the GestureController has no suppression flag).
  The loop starts no movement while suppression is held: a cycle whose check finds
  suppression asserted goes back to sleep without a write attempt. The only command it can
  still write then is the return to rest of a movement begun before, which follows the
  movement command after 600 ms and the time spent reading the replies to it. So with that
  reading time at most \<open>R\<close>, every command of the loop is written at most \<open>600 + R\<close> ms
  after an instant at which suppression was released, and when suppression is held from \<open>a\<close>
  to \<open>b\<close> the loop writes nothing in the times after \<open>a + 600 + R\<close> up to \<open>b\<close>. A cycle
  whose check finds suppression released performs its movement: on a port whose writes go
  through, the clamped angle and then the rest angle.
\<close>

theorem idle_writes_and_suppression:
  "(reply_bounded R s \<longrightarrow>
      (\<exists>new. writes_of (snd (idle_animation_loop E ds s)) = writes_of s @ new
        \<and> (\<forall>w\<in>set new. \<exists>c. c \<le> fst w \<and> fst w \<le> c + 600 + R \<and> \<not> locked_at E c)
        \<and> (\<forall>a b. (\<forall>t. a \<le> t \<and> t \<le> b \<longrightarrow> locked_at E t)
              \<longrightarrow> (\<forall>w\<in>set new. \<not> (a + 600 + R < fst w \<and> fst w \<le> b)))))
   \<and> (running_at E (now s)
        \<and> (\<forall>k. 1 \<le> k \<and> k \<le> random_uniform_ms IDLE_ANIMATION_MIN IDLE_ANIMATION_MAX ri div 100
              \<longrightarrow> running_at E (now s + 100 * k))
        \<and> locked_at E (now s + 100 * (random_uniform_ms IDLE_ANIMATION_MIN IDLE_ANIMATION_MAX ri div 100))
      \<longrightarrow> idle_animation_loop E ((ri, r1, r2) # ds) s
            = idle_animation_loop E ds
                (s\<lparr>now := now s + 100 * (random_uniform_ms IDLE_ANIMATION_MIN IDLE_ANIMATION_MAX ri div 100)\<rparr>))
   \<and> (running_at E (now s)
        \<and> (\<forall>k. 1 \<le> k \<and> k \<le> random_uniform_ms IDLE_ANIMATION_MIN IDLE_ANIMATION_MAX ri div 100
              \<longrightarrow> running_at E (now s + 100 * k))
        \<and> \<not> locked_at E (now s + 100 * (random_uniform_ms IDLE_ANIMATION_MIN IDLE_ANIMATION_MAX ri div 100))
        \<and> uno s = Some p \<and> is_open p \<and> (\<forall>k. \<not> faults p k)
      \<longrightarrow> (\<exists>servo l s2. (servo, l) \<in> set SERVO_LIMITS
             \<and> idle_animation_loop E ((ri, r1, r2) # ds) s = idle_animation_loop E ds s2
             \<and> writes_of s2 = written p @
                 [(now s + 100 * (random_uniform_ms IDLE_ANIMATION_MIN IDLE_ANIMATION_MAX ri div 100),
                   servo @ ''_'' @ str_int (clamp l (rest l + random_randint (- 15) 15 r2)) @ newline),
                  (now s + 100 * (random_uniform_ms IDLE_ANIMATION_MIN IDLE_ANIMATION_MAX ri div 100) + 600
                     + reply_time p (attempts p),
                   servo @ ''_'' @ str_int (rest l) @ newline)]))"
proof -
  let ?n = "random_uniform_ms IDLE_ANIMATION_MIN IDLE_ANIMATION_MAX ri div 100"
  let ?s1 = "s\<lparr>now := now s + 100 * ?n\<rparr>"
  have A: "reply_bounded R s \<longrightarrow>
      (\<exists>new. writes_of (snd (idle_animation_loop E ds s)) = writes_of s @ new
        \<and> (\<forall>w\<in>set new. \<exists>c. c \<le> fst w \<and> fst w \<le> c + 600 + R \<and> \<not> locked_at E c)
        \<and> (\<forall>a b. (\<forall>t. a \<le> t \<and> t \<le> b \<longrightarrow> locked_at E t)
              \<longrightarrow> (\<forall>w\<in>set new. \<not> (a + 600 + R < fst w \<and> fst w \<le> b))))"
  proof
    assume rb: "reply_bounded R s"
    from idle_loop_writes [OF rb, of E ds] obtain new where
      n: "writes_of (snd (idle_animation_loop E ds s)) = writes_of s @ new"
        "\<forall>w\<in>set new. \<exists>c. c \<le> fst w \<and> fst w \<le> c + 600 + R \<and> \<not> locked_at E c"
      by blast
    have iv: "\<forall>a b. (\<forall>t. a \<le> t \<and> t \<le> b \<longrightarrow> locked_at E t)
              \<longrightarrow> (\<forall>w\<in>set new. \<not> (a + 600 + R < fst w \<and> fst w \<le> b))"
    proof (intro allI impI ballI notI)
      fix a b w
      assume h: "\<forall>t. a \<le> t \<and> t \<le> b \<longrightarrow> locked_at E t" and w: "w \<in> set new"
        and r: "a + 600 + R < fst w \<and> fst w \<le> b"
      from n(2) w obtain c where c: "c \<le> fst w" "fst w \<le> c + 600 + R" "\<not> locked_at E c"
        by blast
      have "a \<le> c \<and> c \<le> b" using c(1,2) r by linarith
      then show False using h c(3) by blast
    qed
    show "\<exists>new. writes_of (snd (idle_animation_loop E ds s)) = writes_of s @ new
        \<and> (\<forall>w\<in>set new. \<exists>c. c \<le> fst w \<and> fst w \<le> c + 600 + R \<and> \<not> locked_at E c)
        \<and> (\<forall>a b. (\<forall>t. a \<le> t \<and> t \<le> b \<longrightarrow> locked_at E t)
              \<longrightarrow> (\<forall>w\<in>set new. \<not> (a + 600 + R < fst w \<and> fst w \<le> b)))"
      using n iv by blast
  qed
  have B: "running_at E (now s)
        \<and> (\<forall>k. 1 \<le> k \<and> k \<le> ?n \<longrightarrow> running_at E (now s + 100 * k))
        \<and> locked_at E (now s + 100 * ?n)
      \<longrightarrow> idle_animation_loop E ((ri, r1, r2) # ds) s = idle_animation_loop E ds ?s1"
  proof
    assume h: "running_at E (now s)
        \<and> (\<forall>k. 1 \<le> k \<and> k \<le> ?n \<longrightarrow> running_at E (now s + 100 * k))
        \<and> locked_at E (now s + 100 * ?n)"
    then have sc: "sleep_chunks (running_at E) ?n s = (True, ?s1)"
      by (intro sleep_chunks_running) blast
    show "idle_animation_loop E ((ri, r1, r2) # ds) s = idle_animation_loop E ds ?s1"
      using h sc by simp
  qed
  have C: "running_at E (now s)
        \<and> (\<forall>k. 1 \<le> k \<and> k \<le> ?n \<longrightarrow> running_at E (now s + 100 * k))
        \<and> \<not> locked_at E (now s + 100 * ?n)
        \<and> uno s = Some p \<and> is_open p \<and> (\<forall>k. \<not> faults p k)
      \<longrightarrow> (\<exists>servo l s2. (servo, l) \<in> set SERVO_LIMITS
             \<and> idle_animation_loop E ((ri, r1, r2) # ds) s = idle_animation_loop E ds s2
             \<and> writes_of s2 = written p @
                 [(now s + 100 * ?n,
                   servo @ ''_'' @ str_int (clamp l (rest l + random_randint (- 15) 15 r2)) @ newline),
                  (now s + 100 * ?n + 600 + reply_time p (attempts p),
                   servo @ ''_'' @ str_int (rest l) @ newline)])"
  proof
    assume h: "running_at E (now s)
        \<and> (\<forall>k. 1 \<le> k \<and> k \<le> ?n \<longrightarrow> running_at E (now s + 100 * k))
        \<and> \<not> locked_at E (now s + 100 * ?n)
        \<and> uno s = Some p \<and> is_open p \<and> (\<forall>k. \<not> faults p k)"
    then have sc: "sleep_chunks (running_at E) ?n s = (True, ?s1)"
      by (intro sleep_chunks_running) blast
    have u: "uno ?s1 = Some p" "now ?s1 = now s + 100 * ?n"
      using h by simp_all
    from idle_movement_clamped [OF u(1), of r1 r2] h obtain servo l s2 where
      m: "(servo, l) \<in> set SERVO_LIMITS" "idle_movement r1 r2 ?s1 = Inr s2"
        "writes_of s2 = written p @
         [(now ?s1, servo @ ''_'' @ str_int (clamp l (rest l + random_randint (- 15) 15 r2)) @ newline),
          (now ?s1 + 600 + reply_time p (attempts p),
           servo @ ''_'' @ str_int (rest l) @ newline)]"
      by blast
    have "idle_animation_loop E ((ri, r1, r2) # ds) s = idle_animation_loop E ds s2"
      using h sc m(2) by simp
    then show "\<exists>servo l s2. (servo, l) \<in> set SERVO_LIMITS
             \<and> idle_animation_loop E ((ri, r1, r2) # ds) s = idle_animation_loop E ds s2
             \<and> writes_of s2 = written p @
                 [(now s + 100 * ?n,
                   servo @ ''_'' @ str_int (clamp l (rest l + random_randint (- 15) 15 r2)) @ newline),
                  (now s + 100 * ?n + 600 + reply_time p (attempts p),
                   servo @ ''_'' @ str_int (rest l) @ newline)]"
      using m(1,3) u(2) by auto
  qed
  show ?thesis
    using A B C by blast
qed

theorem idle_writes_and_suppression_witness:
  "(\<exists>new. writes_of (snd (idle_animation_loop
        \<lparr>running_at = (\<lambda>t. True), locked_at = (\<lambda>t. 8050 \<le> t \<and> t < 10000)\<rparr>
        [(0, 0, 0), (0, 0, 0)] (idle_state\<lparr>uno := Some replying_port\<rparr>))) = new
      \<and> (\<forall>w\<in>set new. \<not> (8950 < fst w \<and> fst w \<le> 9999)))
   \<and> idle_animation_loop \<lparr>running_at = (\<lambda>t. True), locked_at = (\<lambda>t. t < 10000)\<rparr>
        [(0, 0, 0), (0, 0, 0)] idle_state
      = idle_animation_loop \<lparr>running_at = (\<lambda>t. True), locked_at = (\<lambda>t. t < 10000)\<rparr>
        [(0, 0, 0)] (idle_state\<lparr>now := 8000\<rparr>)
   \<and> (\<exists>servo l s2. (servo, l) \<in> set SERVO_LIMITS
       \<and> idle_animation_loop \<lparr>running_at = (\<lambda>t. True), locked_at = (\<lambda>t. 8050 \<le> t \<and> t < 10000)\<rparr>
           [(0, 0, 0), (0, 0, 0)] (idle_state\<lparr>uno := Some replying_port\<rparr>)
         = idle_animation_loop \<lparr>running_at = (\<lambda>t. True), locked_at = (\<lambda>t. 8050 \<le> t \<and> t < 10000)\<rparr>
           [(0, 0, 0)] s2
       \<and> writes_of s2
           = [(8000, servo @ ''_'' @ str_int (clamp l (rest l + random_randint (- 15) 15 0)) @ newline),
              (8900, servo @ ''_'' @ str_int (rest l) @ newline)])"
proof -
  let ?E = "\<lparr>running_at = (\<lambda>t. True), locked_at = (\<lambda>t. t < 10000)\<rparr>"
  let ?F = "\<lparr>running_at = (\<lambda>t. True), locked_at = (\<lambda>t. 8050 \<le> t \<and> t < 10000)\<rparr>"
  let ?s = "idle_state\<lparr>uno := Some replying_port\<rparr>"
  have rb: "reply_bounded 300 ?s"
    by (simp add: reply_bounded_def idle_state_def replying_port_def reply_time_def)
  note t = idle_writes_and_suppression [where E = ?F and ds = "[(0, 0, 0), (0, 0, 0)]"
      and s = ?s and ri = 0 and ?r1.0 = 0 and ?r2.0 = 0 and p = replying_port and R = 300]
  from t rb obtain new where
    n: "writes_of (snd (idle_animation_loop ?F [(0, 0, 0), (0, 0, 0)] ?s)) = writes_of ?s @ new"
     "\<forall>a b. (\<forall>t. a \<le> t \<and> t \<le> b \<longrightarrow> locked_at ?F t)
            \<longrightarrow> (\<forall>w\<in>set new. \<not> (a + 600 + 300 < fst w \<and> fst w \<le> b))"
    by blast
  have "\<forall>w\<in>set new. \<not> (8050 + 600 + 300 < fst w \<and> fst w \<le> 9999)"
    using n(2) [rule_format, of 8050 9999] by simp
  then have 1: "\<exists>new. writes_of (snd (idle_animation_loop ?F [(0, 0, 0), (0, 0, 0)] ?s)) = new
      \<and> (\<forall>w\<in>set new. \<not> (8950 < fst w \<and> fst w \<le> 9999))"
    using n(1) by (simp add: idle_state_def writes_of_def replying_port_def)
  have 2: "idle_animation_loop ?E [(0, 0, 0), (0, 0, 0)] idle_state
      = idle_animation_loop ?E [(0, 0, 0)] (idle_state\<lparr>now := 8000\<rparr>)"
    using idle_writes_and_suppression [where E = ?E and ds = "[(0, 0, 0)]"
      and s = idle_state and ri = 0 and ?r1.0 = 0 and ?r2.0 = 0 and p = healthy_port and R = 0]
    by (simp add: interval_0 idle_state_def)
  have h3: "running_at ?F (now ?s)
        \<and> (\<forall>k. 1 \<le> k \<and> k \<le> random_uniform_ms IDLE_ANIMATION_MIN IDLE_ANIMATION_MAX 0 div 100
              \<longrightarrow> running_at ?F (now ?s + 100 * k))
        \<and> \<not> locked_at ?F (now ?s + 100 * (random_uniform_ms IDLE_ANIMATION_MIN IDLE_ANIMATION_MAX 0 div 100))
        \<and> uno ?s = Some replying_port \<and> is_open replying_port \<and> (\<forall>k. \<not> faults replying_port k)"
    by (simp add: interval_0 idle_state_def replying_port_def)
  have e3: "now ?s + 100 * (random_uniform_ms IDLE_ANIMATION_MIN IDLE_ANIMATION_MAX 0 div 100) = 8000"
      "reply_time replying_port (attempts replying_port) = 300" "written replying_port = []"
    by (simp_all add: interval_0 idle_state_def replying_port_def reply_time_def)
  have 3: "\<exists>servo l s2. (servo, l) \<in> set SERVO_LIMITS
       \<and> idle_animation_loop ?F [(0, 0, 0), (0, 0, 0)] ?s = idle_animation_loop ?F [(0, 0, 0)] s2
       \<and> writes_of s2
           = [(8000, servo @ ''_'' @ str_int (clamp l (rest l + random_randint (- 15) 15 0)) @ newline),
              (8900, servo @ ''_'' @ str_int (rest l) @ newline)]"
    using idle_writes_and_suppression [where E = ?F and ds = "[(0, 0, 0)]"
      and s = ?s and ri = 0 and ?r1.0 = 0 and ?r2.0 = 0 and p = replying_port and R = 300,
      THEN conjunct2, THEN conjunct2, THEN mp, OF h3]
    unfolding e3 by simp
  show ?thesis using 1 2 3 by blast
qed

section \<open>Starting the idle animations\<close>










lemma gc_interval_0:
  "random_uniform_ms IDLE_ANIMATION_INTERVAL_MIN IDLE_ANIMATION_INTERVAL_MAX 0 = 8000"
  by (simp add: random_uniform_ms_def IDLE_ANIMATION_INTERVAL_MIN_def
      IDLE_ANIMATION_INTERVAL_MAX_def)





section \<open>Stopping during the interval sleep\<close>

text \<open>
  C6, as stated, fails for the GestureController: its loop sleeps the whole interval in
  one call. Started at time 0 with an interval of 8 s and stopped at 50 ms, the thread ends
  at 8000 ms: later than one slice (100 ms) and the join timeout (2 s) after the stop.
\<close>

theorem gesture_controller_sleep_not_sliced:
  "GestureController_idle_animation_loop (\<lambda>t. t < 50) [(0, 0, 0)]
       \<lparr>clock = 0, connection = Some healthy_port\<rparr>
     = (Returned, \<lparr>clock = 8000, connection = Some healthy_port\<rparr>)
   \<and> 50 + 100 + 2000
       < clock (snd (GestureController_idle_animation_loop (\<lambda>t. t < 50) [(0, 0, 0)]
           \<lparr>clock = 0, connection = Some healthy_port\<rparr>))"
  by (simp add: gc_interval_0 time_sleep_def)

text \<open>
  C6, amended. In \<open>rufus.py\<close> the interval is slept in slices of 100 ms with the stop
  signal checked after each: when \<open>stop()\<close> comes at time \<open>T\<close> during the sleep, the loop
  returns at the end of the current slice, less than 100 ms after \<open>T\<close>, with the thread
  state otherwise as it was, so without any command. The GestureController sleeps the
  whole interval in one call and checks the flag once after it: when \<open>stop()\<close> comes
  during the sleep the loop also ends without any command, but only when the interval has
  elapsed.
\<close>

theorem stop_during_interval_sleep:
  "(running_at E = (\<lambda>t. t < T) \<and> now s < T
      \<and> T \<le> now s + 100 * (random_uniform_ms IDLE_ANIMATION_MIN IDLE_ANIMATION_MAX ri div 100)
    \<longrightarrow> (\<exists>t'. idle_animation_loop E ((ri, r1, r2) # ds) s = (Returned, s\<lparr>now := t'\<rparr>)
           \<and> T \<le> t' \<and> t' < T + 100))
   \<and> (clock c < T
      \<and> T \<le> clock c + random_uniform_ms IDLE_ANIMATION_INTERVAL_MIN IDLE_ANIMATION_INTERVAL_MAX ri
    \<longrightarrow> GestureController_idle_animation_loop (\<lambda>t. t < T) ((ri, r1, r2) # ds) c
          = (Returned, c\<lparr>clock := clock c
               + random_uniform_ms IDLE_ANIMATION_INTERVAL_MIN IDLE_ANIMATION_INTERVAL_MAX ri\<rparr>))"
proof -
  let ?n = "random_uniform_ms IDLE_ANIMATION_MIN IDLE_ANIMATION_MAX ri div 100"
  have A: "running_at E = (\<lambda>t. t < T) \<and> now s < T \<and> T \<le> now s + 100 * ?n
    \<longrightarrow> (\<exists>t'. idle_animation_loop E ((ri, r1, r2) # ds) s = (Returned, s\<lparr>now := t'\<rparr>)
           \<and> T \<le> t' \<and> t' < T + 100)"
  proof
    assume h: "running_at E = (\<lambda>t. t < T) \<and> now s < T \<and> T \<le> now s + 100 * ?n"
    then obtain t' where t: "sleep_chunks (\<lambda>t. t < T) ?n s = (False, s\<lparr>now := t'\<rparr>)"
        "T \<le> t'" "t' < T + 100"
      using sleep_chunks_stopped [of s T ?n] by blast
    have "idle_animation_loop E ((ri, r1, r2) # ds) s = (Returned, s\<lparr>now := t'\<rparr>)"
      using h t(1) by simp
    then show "\<exists>t'. idle_animation_loop E ((ri, r1, r2) # ds) s = (Returned, s\<lparr>now := t'\<rparr>)
           \<and> T \<le> t' \<and> t' < T + 100"
      using t(2,3) by blast
  qed
  show ?thesis
    using A by (simp add: time_sleep_def)
qed

theorem stop_during_interval_sleep_witness:
  "(\<exists>t'. idle_animation_loop \<lparr>running_at = (\<lambda>t. t < 50), locked_at = (\<lambda>t. False)\<rparr>
            [(0, 0, 0)] idle_state = (Returned, idle_state\<lparr>now := t'\<rparr>)
        \<and> 50 \<le> t' \<and> t' < 150)
   \<and> GestureController_idle_animation_loop (\<lambda>t. t < 50) [(0, 0, 0)]
        \<lparr>clock = 0, connection = Some healthy_port\<rparr>
      = (Returned, \<lparr>clock = 8000, connection = Some healthy_port\<rparr>)"
  using stop_during_interval_sleep [where E = "\<lparr>running_at = (\<lambda>t. t < 50), locked_at = (\<lambda>t. False)\<rparr>"
      and T = 50 and s = idle_state and ri = 0 and ?r1.0 = 0 and ?r2.0 = 0 and ds = "[]"
      and c = "\<lparr>clock = 0, connection = Some healthy_port\<rparr>"]
  by (simp add: interval_0 gc_interval_0 idle_state_def)

section \<open>Shutdown\<close>








lemma writes_of_controller_clock [simp]:
  "writes_of_controller (c\<lparr>clock := t\<rparr>) = writes_of_controller c"
  by (simp add: writes_of_controller_def)











section \<open>Sends of several threads\<close>











lemma send_command_clock [simp]:
  "clock (snd (ArduinoController_send_command cmd c)) = clock c"
  by (auto simp: ArduinoController_send_command_def port_write_def Let_def split: option.splits)

lemma move_servo_clock [simp]: "clock (snd (move_servo servo angle c)) = clock c"
  by (simp add: move_servo_def)









end
